theory Spec2Isabelle
  imports Main "HOL-Library.Word"
begin

section \<open>Data model\<close>

text \<open>
  The skipchain client \<^verbatim>\<open>SkipchainRPC\<close> (file \<^verbatim>\<open>skipchain/skipchain-rpc.ts\<close>) works on
  blocks, forward links and rosters. Their classes live in modules that the client only
  imports, so the fields the client reads are kept as record fields and the methods it
  calls (\<^verbatim>\<open>computeHash\<close>, \<^verbatim>\<open>verify\<close>, \<^verbatim>\<open>getServicePublics\<close>, \<^verbatim>\<open>getWebSocketAddress\<close>)
  are parameters, collected in the record \<open>prims\<close>.
\<close>

type_synonym Buffer = "8 word list"

type_synonym Point = Buffer

record ServerIdentity =
  "public" :: Point
  address :: string

record Roster =
  list :: "ServerIdentity list"

record ForwardLink =
  fl_from :: Buffer
  fl_to :: Buffer
  newRoster :: "Roster option"
  signature :: Buffer

record SkipBlock =
  hash :: Buffer
  index :: int
  height :: int
  maxHeight :: int
  baseHeight :: int
  backlinks :: "Buffer list"
  genesis :: Buffer
  data :: Buffer
  roster :: Roster
  forwardLinks :: "ForwardLink list"

text \<open>
  Every \<^verbatim>\<open>Error\<close> the client builds is one constructor; the comment gives its message.
  \<open>Failure\<close> stands for an error of a collaborator (a connection, the digest of a
  block, the keys of a roster, or the signature check of a forward link), with that
  collaborator's message.
\<close>

datatype error =
    NoBlockReturned         \<comment> \<open>no block returned in the chain\<close>
  | FirstIDMismatch         \<comment> \<open>the first ID is not the one we have\<close>
  | InvalidBlockHash        \<comment> \<open>invalid block hash\<close>
  | NoForwardLink           \<comment> \<open>no forward link included in the skipblock\<close>
  | NoAssociatedLink        \<comment> \<open>no forward link associated with the next block\<close>
  | InvalidLink error       \<comment> \<open>invalid link: <message of the link's error>\<close>
  | HashDoesNotMatch        \<comment> \<open>invalid block: hash does not match\<close>
  | NoConodeHasLatest       \<comment> \<open>no conode has the latest block\<close>
  | TypeError               \<comment> \<open>a property read on \<^verbatim>\<open>undefined\<close>\<close>
  | Failure string

text \<open>
  A call of a method used in the verification either returns (\<open>Inr\<close>) or throws
  (\<open>Inl\<close>). \<^verbatim>\<open>link.verify(publics)\<close> returns \<^verbatim>\<open>null\<close> (\<open>None\<close>) or an \<^verbatim>\<open>Error\<close>
  (\<open>Some\<close>) when it returns.
\<close>

record prims =
  computeHash :: "SkipBlock \<Rightarrow> error + Buffer"
  verify :: "ForwardLink \<Rightarrow> Point list \<Rightarrow> error + error option"
  getServicePublics :: "Roster \<Rightarrow> string \<Rightarrow> error + Point list"
  getWebSocketAddress :: "ServerIdentity \<Rightarrow> string"

definition serviceName :: string where
  "serviceName = ''Skipchain''"

section \<open>The chain verifier\<close>

text \<open>
  The \<^verbatim>\<open>for\<close> loop of \<^verbatim>\<open>verifyChain\<close>, with \<open>prev = blocks[i - 1]\<close>,
  \<open>cur = blocks[i]\<close> and \<open>rest\<close> the blocks after index \<open>i\<close>; the loop starts at
  \<open>i = 1\<close>. \<^verbatim>\<open>Array.prototype.find\<close> returns the first element that satisfies the
  test, as \<^const>\<open>find\<close> does. The method has no \<^verbatim>\<open>try\<close>: what a call in it throws, it
  throws (\<open>Inl\<close>); what it returns is \<open>Inr\<close>, an \<^verbatim>\<open>Error\<close> or \<^verbatim>\<open>null\<close>. The argument
  \<^verbatim>\<open>prev.roster.getServicePublics(...)\<close> is evaluated before \<^verbatim>\<open>link.verify\<close> is called.
\<close>

fun verifyChain_loop :: "prims \<Rightarrow> SkipBlock \<Rightarrow> SkipBlock list \<Rightarrow> error + error option" where
  "verifyChain_loop P prev [] = Inr None"
| "verifyChain_loop P prev (cur # rest) =
     (case computeHash P cur of
        Inl ex \<Rightarrow> Inl ex
      | Inr h \<Rightarrow>
          if h \<noteq> hash cur then Inr (Some InvalidBlockHash)
          else if length (forwardLinks prev) = 0 then Inr (Some NoForwardLink)
          else (case find (\<lambda>l. fl_to l = hash cur) (forwardLinks prev) of
                  None \<Rightarrow> Inr (Some NoAssociatedLink)
                | Some link \<Rightarrow>
                    (case getServicePublics P (roster prev) serviceName of
                       Inl ex \<Rightarrow> Inl ex
                     | Inr publics \<Rightarrow>
                         (case verify P link publics of
                            Inl ex \<Rightarrow> Inl ex
                          | Inr (Some err) \<Rightarrow> Inr (Some (InvalidLink err))
                          | Inr None \<Rightarrow> verifyChain_loop P cur rest))))"

text \<open>
  \<^verbatim>\<open>verifyChain(blocks, firstID?)\<close> returns \<^verbatim>\<open>null\<close> (\<open>Inr None\<close>) for a correct chain
  and an error otherwise. A \<^verbatim>\<open>Buffer\<close> is an object and so always truthy: the test
  \<^verbatim>\<open>firstID && ...\<close> only asks whether the argument was given.
\<close>

definition verifyChain ::
  "prims \<Rightarrow> SkipBlock list \<Rightarrow> Buffer option \<Rightarrow> error + error option" where
  "verifyChain P blocks firstID =
     (case blocks of
        [] \<Rightarrow> Inr (Some NoBlockReturned)
      | b0 # rest \<Rightarrow>
          (case firstID of
             Some fid \<Rightarrow>
               (case computeHash P b0 of
                  Inl ex \<Rightarrow> Inl ex
                | Inr h \<Rightarrow>
                    if h \<noteq> fid then Inr (Some FirstIDMismatch)
                    else verifyChain_loop P b0 rest)
           | None \<Rightarrow> verifyChain_loop P b0 rest))"

section \<open>The client\<close>

text \<open>
  A connection is a \<^verbatim>\<open>WebSocketConnection(address, service)\<close>. The network is outside
  the client: \<open>send\<close> is a parameter that maps the state of the network, a connection and
  a request to a reply or the error the connection throws, and the next state of the
  network. The type of \<open>send\<close> fixes the shape of the reply, as the type argument of
  \<^verbatim>\<open>send<T>(req, T)\<close> does.
\<close>

record IConnection =
  url :: string
  service :: string

type_synonym ('n, 'q, 'r) send = "'n \<Rightarrow> IConnection \<Rightarrow> 'q \<Rightarrow> (error + 'r) \<times> 'n"

record SkipchainRPC =
  rpc_roster :: Roster
  conn :: "IConnection list"

text \<open>The constructor: one connection per member of the roster, in the roster's order.\<close>

definition newSkipchainRPC :: "prims \<Rightarrow> Roster \<Rightarrow> SkipchainRPC" where
  "newSkipchainRPC P r =
     \<lparr>rpc_roster = r,
      conn = map (\<lambda>srvid. \<lparr>url = getWebSocketAddress P srvid, service = serviceName\<rparr>) (list r)\<rparr>"

record GetSingleBlock =
  block_id :: Buffer

record GetSingleBlockByIndex =
  req_genesis :: Buffer
  req_index :: int

record GetSingleBlockByIndexReply =
  skipblock :: SkipBlock
  links :: "ForwardLink list"

record GetUpdateChain =
  latestID :: Buffer

record GetUpdateChainReply =
  update :: "SkipBlock list"

text \<open>
  \<^verbatim>\<open>getSkipBlock\<close> and \<^verbatim>\<open>getSkipBlockByIndex\<close> ask the first connection; an error of the
  connection, or one thrown by \<^verbatim>\<open>computeHash\<close>, propagates. With an empty roster
  \<^verbatim>\<open>this.conn[0]\<close> is \<^verbatim>\<open>undefined\<close> and the call on it throws a \<^verbatim>\<open>TypeError\<close>.
\<close>

definition getSkipBlock ::
  "prims \<Rightarrow> ('n, GetSingleBlock, SkipBlock) send \<Rightarrow> 'n \<Rightarrow> SkipchainRPC \<Rightarrow> Buffer
     \<Rightarrow> (error + SkipBlock) \<times> 'n" where
  "getSkipBlock P send n rpc bid =
     (case conn rpc of
        [] \<Rightarrow> (Inl TypeError, n)
      | c # _ \<Rightarrow>
          (case send n c \<lparr>block_id = bid\<rparr> of
             (Inl err, n') \<Rightarrow> (Inl err, n')
           | (Inr block, n') \<Rightarrow>
               (case computeHash P block of
                  Inl ex \<Rightarrow> (Inl ex, n')
                | Inr h \<Rightarrow>
                    if h \<noteq> hash block then (Inl HashDoesNotMatch, n')
                    else (Inr block, n'))))"

definition getSkipBlockByIndex ::
  "prims \<Rightarrow> ('n, GetSingleBlockByIndex, GetSingleBlockByIndexReply) send \<Rightarrow> 'n
     \<Rightarrow> SkipchainRPC \<Rightarrow> Buffer \<Rightarrow> int \<Rightarrow> (error + GetSingleBlockByIndexReply) \<times> 'n" where
  "getSkipBlockByIndex P send n rpc g i =
     (case conn rpc of
        [] \<Rightarrow> (Inl TypeError, n)
      | c # _ \<Rightarrow>
          (case send n c \<lparr>req_genesis = g, req_index = i\<rparr> of
             (Inl err, n') \<Rightarrow> (Inl err, n')
           | (Inr reply, n') \<Rightarrow>
               (case computeHash P (skipblock reply) of
                  Inl ex \<Rightarrow> (Inl ex, n')
                | Inr h \<Rightarrow>
                    if h \<noteq> hash (skipblock reply) then (Inl HashDoesNotMatch, n')
                    else (Inr reply, n'))))"

text \<open>
  \<^verbatim>\<open>getLatestBlock\<close> writes one line to the logger for each member it gives up on:
  \<open>ErrorFrom\<close> when the connection throws, \<open>CorruptedSkipchain\<close> when the chain it
  returned does not verify. The state of a call is the state of the network and the
  lines logged so far.
\<close>

datatype logentry =
    ErrorFrom string error      \<comment> \<open>error from <url>: <message>\<close>
  | CorruptedSkipchain error    \<comment> \<open>Received corrupted skipchain with error: <error>\<close>

record 'n world =
  net :: 'n
  log :: "logentry list"

text \<open>
  The loop \<^verbatim>\<open>for (const c of this.conn)\<close> of one invocation leaves in one of four ways:
  \<^verbatim>\<open>return b\<close>; the \<^verbatim>\<open>return\<close> of the call on a new client for \<open>b\<close>; an exception;
  or past its end, where the method throws. The \<^verbatim>\<open>try\<close> encloses \<^verbatim>\<open>c.send\<close> alone: an
  error of the connection is caught and logged, and so is an error that \<^verbatim>\<open>verifyChain\<close>
  returns, but what \<^verbatim>\<open>verifyChain\<close> throws leaves the loop and the method.
  \<^verbatim>\<open>reply.update.pop()\<close> is the last block; the chain is not empty there, since it
  verified.
\<close>

datatype 'n exit =
    Return SkipBlock "'n world"
  | Recurse SkipBlock "'n world"
  | Thrown error "'n world"
  | Exhausted "'n world"

fun getLatestBlock_for ::
  "prims \<Rightarrow> ('n, GetUpdateChain, GetUpdateChainReply) send \<Rightarrow> 'n world \<Rightarrow> IConnection list
     \<Rightarrow> Buffer \<Rightarrow> 'n exit" where
  "getLatestBlock_for P send w [] lid = Exhausted w"
| "getLatestBlock_for P send w (c # cs) lid =
     (case send (net w) c \<lparr>latestID = lid\<rparr> of
        (Inl err, n') \<Rightarrow>
          getLatestBlock_for P send \<lparr>net = n', log = log w @ [ErrorFrom (url c) err]\<rparr> cs lid
      | (Inr reply, n') \<Rightarrow>
          (case verifyChain P (update reply) (Some lid) of
             Inl ex \<Rightarrow> Thrown ex \<lparr>net = n', log = log w\<rparr>
           | Inr None \<Rightarrow>
               (let b = last (update reply) in
                if length (forwardLinks b) = 0 then Return b \<lparr>net = n', log = log w\<rparr>
                else Recurse b \<lparr>net = n', log = log w\<rparr>)
           | Inr (Some err) \<Rightarrow>
               getLatestBlock_for P send
                 \<lparr>net = n', log = log w @ [CorruptedSkipchain err]\<rparr> cs lid))"

text \<open>
  The method itself: the promise resolves with a block (\<open>Inr\<close>) or rejects with an error
  (\<open>Inl\<close>). Nothing bounds the number of calls on new clients, so the function is
  partial: \<open>None\<close> is a call whose promise never settles.
\<close>

partial_function (option) getLatestBlock ::
  "prims \<Rightarrow> ('n, GetUpdateChain, GetUpdateChainReply) send \<Rightarrow> 'n world \<Rightarrow> SkipchainRPC
     \<Rightarrow> Buffer \<Rightarrow> ((error + SkipBlock) \<times> 'n world) option" where
  "getLatestBlock P send w rpc lid =
     (case getLatestBlock_for P send w (conn rpc) lid of
        Return b w' \<Rightarrow> Some (Inr b, w')
      | Recurse b w' \<Rightarrow> getLatestBlock P send w' (newSkipchainRPC P (roster b)) (hash b)
      | Thrown ex w' \<Rightarrow> Some (Inl ex, w')
      | Exhausted w' \<Rightarrow> Some (Inl NoConodeHasLatest, w'))"

declare getLatestBlock.simps [code]

section \<open>Vocabulary of the properties\<close>

text \<open>
  A block is self-consistent when the hash computed from it is returned and is its
  stored hash.
\<close>

definition selfConsistent :: "prims \<Rightarrow> SkipBlock \<Rightarrow> bool" where
  "selfConsistent P b \<longleftrightarrow> computeHash P b = Inr (hash b)"

text \<open>The adjacent pairs \<open>(blocks[i - 1], blocks[i])\<close> of a sequence, in order.\<close>

definition adjacent :: "'a list \<Rightarrow> ('a \<times> 'a) list" where
  "adjacent xs = zip xs (tl xs)"

text \<open>The public keys of the roster of the block that carries a link.\<close>

definition sourceKeys :: "prims \<Rightarrow> SkipBlock \<Rightarrow> error + Point list" where
  "sourceKeys P prev = getServicePublics P (roster prev) serviceName"

text \<open>
  The first forward link of \<open>prev\<close> whose destination is the computed hash of \<open>cur\<close> exists,
  and its signature verifies against the keys of the roster of \<open>prev\<close>.
\<close>

definition firstLinkVerifies :: "prims \<Rightarrow> SkipBlock \<Rightarrow> SkipBlock \<Rightarrow> bool" where
  "firstLinkVerifies P prev cur =
     (case computeHash P cur of
        Inl ex \<Rightarrow> False
      | Inr h \<Rightarrow>
          (case find (\<lambda>l. fl_to l = h) (forwardLinks prev) of
             None \<Rightarrow> False
           | Some link \<Rightarrow>
               (case sourceKeys P prev of
                  Inl ex \<Rightarrow> False
                | Inr keys \<Rightarrow> verify P link keys = Inr None)))"

text \<open>
  The condition that the specification's testable property gives for the success of
  \<^verbatim>\<open>verifyChain\<close>, in its words: every block's stored hash matches its recomputed hash,
  and for every adjacent pair the earlier block carries some forward link to the later
  block's recomputed hash whose signature verifies.
\<close>

definition chainValid_spec :: "prims \<Rightarrow> SkipBlock list \<Rightarrow> bool" where
  "chainValid_spec P blocks \<longleftrightarrow>
     list_all (selfConsistent P) blocks \<and>
     list_all (\<lambda>(prev, cur).
        list_ex (\<lambda>l. computeHash P cur = Inr (fl_to l) \<and>
                   (case sourceKeys P prev of
                      Inl ex \<Rightarrow> False
                    | Inr keys \<Rightarrow> verify P l keys = Inr None))
          (forwardLinks prev))
       (adjacent blocks)"

text \<open>
  The verifier as section 4.2 of the specification words it, for comparison with the
  method: the keys a link is verified against are a running state \<open>trustedKeys\<close>, set
  from the first block's roster and replaced by the keys of the replacement roster of
  each matched link that carries one.
\<close>

fun verifyChain_spec_loop ::
  "prims \<Rightarrow> Point list \<Rightarrow> SkipBlock \<Rightarrow> SkipBlock list \<Rightarrow> error + error option" where
  "verifyChain_spec_loop P trustedKeys prev [] = Inr None"
| "verifyChain_spec_loop P trustedKeys prev (cur # rest) =
     (case computeHash P cur of
        Inl ex \<Rightarrow> Inl ex
      | Inr h \<Rightarrow>
          if h \<noteq> hash cur then Inr (Some InvalidBlockHash)
          else if forwardLinks prev = [] then Inr (Some NoForwardLink)
          else (case find (\<lambda>l. fl_to l = h) (forwardLinks prev) of
                  None \<Rightarrow> Inr (Some NoAssociatedLink)
                | Some link \<Rightarrow>
                    (case verify P link trustedKeys of
                       Inl ex \<Rightarrow> Inl ex
                     | Inr (Some err) \<Rightarrow> Inr (Some (InvalidLink err))
                     | Inr None \<Rightarrow>
                         (case newRoster link of
                            None \<Rightarrow> verifyChain_spec_loop P trustedKeys cur rest
                          | Some r \<Rightarrow>
                              (case getServicePublics P r serviceName of
                                 Inl ex \<Rightarrow> Inl ex
                               | Inr keys \<Rightarrow> verifyChain_spec_loop P keys cur rest)))))"

definition verifyChain_spec_from ::
  "prims \<Rightarrow> SkipBlock \<Rightarrow> SkipBlock list \<Rightarrow> error + error option" where
  "verifyChain_spec_from P b0 rest =
     (case getServicePublics P (roster b0) serviceName of
        Inl ex \<Rightarrow> Inl ex
      | Inr trustedKeys \<Rightarrow> verifyChain_spec_loop P trustedKeys b0 rest)"

definition verifyChain_spec ::
  "prims \<Rightarrow> SkipBlock list \<Rightarrow> Buffer option \<Rightarrow> error + error option" where
  "verifyChain_spec P blocks pinnedFirstId =
     (case blocks of
        [] \<Rightarrow> Inr (Some NoBlockReturned)
      | b0 # rest \<Rightarrow>
          (case pinnedFirstId of
             Some fid \<Rightarrow>
               (case computeHash P b0 of
                  Inl ex \<Rightarrow> Inl ex
                | Inr h \<Rightarrow>
                    if h \<noteq> fid then Inr (Some FirstIDMismatch)
                    else verifyChain_spec_from P b0 rest)
           | None \<Rightarrow> verifyChain_spec_from P b0 rest))"

text \<open>
  A member fails on a request for \<open>lid\<close> when its connection throws or when
  \<^verbatim>\<open>verifyChain\<close> returns an error for the chain it sent; \<open>memberFailure\<close> is then the
  line \<^verbatim>\<open>getLatestBlock\<close> logs and the next state of the network. \<open>allFail\<close> asks the
  members of a list one after the other and is the final state when every one of them
  fails in this way.
\<close>

definition memberFailure ::
  "prims \<Rightarrow> ('n, GetUpdateChain, GetUpdateChainReply) send \<Rightarrow> 'n \<Rightarrow> IConnection \<Rightarrow> Buffer
     \<Rightarrow> (logentry \<times> 'n) option" where
  "memberFailure P send n c lid =
     (case send n c \<lparr>latestID = lid\<rparr> of
        (Inl err, n') \<Rightarrow> Some (ErrorFrom (url c) err, n')
      | (Inr reply, n') \<Rightarrow>
          (case verifyChain P (update reply) (Some lid) of
             Inr (Some err) \<Rightarrow> Some (CorruptedSkipchain err, n')
           | Inr None \<Rightarrow> None
           | Inl ex \<Rightarrow> None))"

fun allFail ::
  "prims \<Rightarrow> ('n, GetUpdateChain, GetUpdateChainReply) send \<Rightarrow> 'n world \<Rightarrow> IConnection list
     \<Rightarrow> Buffer \<Rightarrow> 'n world option" where
  "allFail P send w [] lid = Some w"
| "allFail P send w (c # cs) lid =
     (case memberFailure P send (net w) c lid of
        None \<Rightarrow> None
      | Some (line, n') \<Rightarrow> allFail P send \<lparr>net = n', log = log w @ [line]\<rparr> cs lid)"

section \<open>Example data\<close>

text \<open>
  Toy instances of the collaborators, for concrete runs: the digest of a block is its
  genesis identity followed by its payload; a roster signs with the concatenation of its
  members' public keys, and the signature check throws on an empty signature; a member's
  address is its web socket address.
\<close>

definition exHash :: "SkipBlock \<Rightarrow> error + Buffer" where
  "exHash b = Inr (genesis b @ data b)"

definition exVerify :: "ForwardLink \<Rightarrow> Point list \<Rightarrow> error + error option" where
  "exVerify l keys =
     (if signature l = [] then Inl (Failure ''malformed signature'')
      else if signature l = concat keys then Inr None
      else Inr (Some (Failure ''signature not verified'')))"

definition exPrims :: prims where
  "exPrims = \<lparr>computeHash = exHash, verify = exVerify,
     getServicePublics = (\<lambda>r s. Inr (map public (list r))), getWebSocketAddress = address\<rparr>"

definition mkBlock :: "Buffer \<Rightarrow> Buffer \<Rightarrow> Roster \<Rightarrow> ForwardLink list \<Rightarrow> SkipBlock" where
  "mkBlock h d r fls =
     \<lparr>hash = h, index = 0, height = 1, maxHeight = 1, baseHeight = 1, backlinks = [],
      genesis = [0], data = d, roster = r, forwardLinks = fls\<rparr>"

definition mkLink :: "Buffer \<Rightarrow> Buffer \<Rightarrow> Roster option \<Rightarrow> Buffer \<Rightarrow> ForwardLink" where
  "mkLink f t r s = \<lparr>fl_from = f, fl_to = t, newRoster = r, signature = s\<rparr>"

definition rosterOf :: "(Point \<times> string) list \<Rightarrow> Roster" where
  "rosterOf ms = \<lparr>list = map (\<lambda>(k, a). \<lparr>public = k, address = a\<rparr>) ms\<rparr>"

definition rosterA :: Roster where
  "rosterA = rosterOf [([1], ''A'')]"

definition rosterB :: Roster where
  "rosterB = rosterOf [([2], ''B'')]"

definition rosterC :: Roster where
  "rosterC = rosterOf [([3], ''C'')]"

definition rosterBC :: Roster where
  "rosterBC = rosterOf [([2], ''B''), ([3], ''C'')]"

definition rosterABCD :: Roster where
  "rosterABCD = rosterOf [([1], ''A''), ([2], ''B''), ([3], ''C''), ([4], ''D'')]"

text \<open>A block whose stored hash \<open>[9, 9]\<close> is not its digest \<open>[0, 1]\<close>.\<close>

definition badBlock :: SkipBlock where
  "badBlock = mkBlock [9, 9] [1] rosterA []"

text \<open>An honest chain of two blocks: roster \<open>A\<close> signs the link from the first to the second.\<close>

definition goodChain :: "SkipBlock list" where
  "goodChain =
     [mkBlock [0, 1] [1] rosterA [mkLink [0, 1] [0, 2] None [1]],
      mkBlock [0, 2] [2] rosterA []]"

text \<open>
  Two self-consistent blocks; the first carries two links to the second, of which only
  the second is signed by roster \<open>A\<close>.
\<close>

definition dupChain :: "SkipBlock list" where
  "dupChain =
     [mkBlock [0, 1] [1] rosterA
        [mkLink [0, 1] [0, 2] None [7], mkLink [0, 1] [0, 2] None [1]],
      mkBlock [0, 2] [2] rosterA []]"

text \<open>The same two blocks, with a link whose signature is empty.\<close>

definition throwChain :: "SkipBlock list" where
  "throwChain =
     [mkBlock [0, 1] [1] rosterA [mkLink [0, 1] [0, 2] None []],
      mkBlock [0, 2] [2] rosterA []]"

text \<open>
  Three blocks. The link out of the first announces roster \<open>B\<close>; the second block's own
  roster is \<open>C\<close>, and \<open>C\<close>, not \<open>B\<close>, signs the link out of the second.
\<close>

definition rotChain :: "SkipBlock list" where
  "rotChain =
     [mkBlock [0, 1] [1] rosterA [mkLink [0, 1] [0, 2] (Some rosterB) [1]],
      mkBlock [0, 2] [2] rosterC [mkLink [0, 2] [0, 3] None [3]],
      mkBlock [0, 3] [3] rosterC []]"

text \<open>
  The same, but the link out of the second block is signed by the announced roster \<open>B\<close>
  and not by the second block's own roster \<open>C\<close>.
\<close>

definition rotChainB :: "SkipBlock list" where
  "rotChainB =
     [mkBlock [0, 1] [1] rosterA [mkLink [0, 1] [0, 2] (Some rosterB) [1]],
      mkBlock [0, 2] [2] rosterC [mkLink [0, 2] [0, 3] None [2]],
      mkBlock [0, 3] [3] rosterC []]"

lemmas ex_defs = exHash_def exVerify_def exPrims_def mkBlock_def mkLink_def rosterOf_def
  rosterA_def rosterB_def rosterC_def rosterBC_def rosterABCD_def badBlock_def goodChain_def
  dupChain_def throwChain_def rotChain_def rotChainB_def serviceName_def

text \<open>Networks without a state of their own, and networks that record each request.\<close>

definition unreachable :: error where
  "unreachable = Failure ''connection refused''"

definition w0 :: "unit world" where
  "w0 = \<lparr>net = (), log = []\<rparr>"

definition t0 :: "(string \<times> Buffer) list world" where
  "t0 = \<lparr>net = [], log = []\<rparr>"

text \<open>
  \<open>A\<close> is unreachable, \<open>B\<close> returns the chain with the empty signature, \<open>C\<close> returns the
  honest chain from \<open>[0, 1]\<close>, and \<open>D\<close> is unreachable. The state of the network is the
  list of the requests made.
\<close>

definition sendABCD ::
  "((string \<times> Buffer) list, GetUpdateChain, GetUpdateChainReply) send" where
  "sendABCD n c rq =
     (if url c = ''B'' then Inr \<lparr>update = throwChain\<rparr>
      else if url c = ''C'' \<and> latestID rq = [0, 1] then Inr \<lparr>update = goodChain\<rparr>
      else Inl unreachable,
      n @ [(url c, latestID rq)])"

text \<open>
  A chain from \<open>[0, 1]\<close> whose last block has roster \<open>B\<close>, stored hash \<open>[0, 2]\<close>, and one
  forward link, to \<open>[0, 3]\<close>, that announces roster \<open>C\<close>.
\<close>

definition movedChain :: "SkipBlock list" where
  "movedChain =
     [mkBlock [0, 1] [1] rosterA [mkLink [0, 1] [0, 2] (Some rosterB) [1]],
      mkBlock [0, 2] [2] rosterB [mkLink [0, 2] [0, 3] (Some rosterC) [2]]]"

definition tipB :: SkipBlock where
  "tipB = mkBlock [0, 2] [2] rosterB []"

definition tipC :: SkipBlock where
  "tipC = mkBlock [0, 3] [3] rosterC []"

text \<open>
  \<open>A\<close> answers with \<open>movedChain\<close>; \<open>B\<close> knows block \<open>[0, 2]\<close> without forward links; \<open>C\<close>
  knows block \<open>[0, 3]\<close>. The requests made are recorded.
\<close>

definition sendTraced ::
  "((string \<times> Buffer) list, GetUpdateChain, GetUpdateChainReply) send" where
  "sendTraced n c rq =
     (if url c = ''A'' \<and> latestID rq = [0, 1] then Inr \<lparr>update = movedChain\<rparr>
      else if url c = ''B'' \<and> latestID rq = [0, 2] then Inr \<lparr>update = [tipB]\<rparr>
      else if url c = ''C'' \<and> latestID rq = [0, 3] then Inr \<lparr>update = [tipC]\<rparr>
      else Inl unreachable,
      n @ [(url c, latestID rq)])"

text \<open>
  \<open>A\<close>, the only member of its roster, holds the forward link out of block \<open>[0, 1]\<close> but
  not the next block: it answers with that block alone.
\<close>

definition loopBlock :: SkipBlock where
  "loopBlock = mkBlock [0, 1] [1] rosterA [mkLink [0, 1] [0, 2] None [1]]"

definition sendLoop :: "(unit, GetUpdateChain, GetUpdateChainReply) send" where
  "sendLoop n c rq =
     (if url c = ''A'' then (Inr \<lparr>update = [loopBlock]\<rparr>, n) else (Inl unreachable, n))"

text \<open>\<open>A\<close> answers a request for \<open>[0, 1]\<close> with \<open>badBlock\<close> alone.\<close>

definition sendBad :: "(unit, GetUpdateChain, GetUpdateChainReply) send" where
  "sendBad n c rq =
     (if url c = ''A'' \<and> latestID rq = [0, 1] then (Inr \<lparr>update = [badBlock]\<rparr>, n)
      else (Inl unreachable, n))"

text \<open>Replies to the single-block requests: a self-consistent block, and \<open>badBlock\<close>.\<close>

definition sendBlock :: "SkipBlock \<Rightarrow> (unit, GetSingleBlock, SkipBlock) send" where
  "sendBlock b n c rq = (Inr b, n)"

definition sendBlockByIndex ::
  "SkipBlock \<Rightarrow> (unit, GetSingleBlockByIndex, GetSingleBlockByIndexReply) send" where
  "sendBlockByIndex b n c rq = (Inr \<lparr>skipblock = b, links = []\<rparr>, n)"

lemmas net_defs = unreachable_def w0_def t0_def sendABCD_def movedChain_def tipB_def
  tipC_def sendTraced_def loopBlock_def sendLoop_def sendBad_def sendBlock_def
  sendBlockByIndex_def newSkipchainRPC_def

section \<open>The chain verifier: proofs\<close>

lemma verifyChain_loop_None_iff:
  "verifyChain_loop P prev rest = Inr None \<longleftrightarrow>
     (\<forall>b \<in> set rest. selfConsistent P b) \<and>
     (\<forall>(p, c) \<in> set (zip (prev # rest) rest). firstLinkVerifies P p c)"
proof (induction rest arbitrary: prev)
  case Nil
  show ?case by simp
next
  case (Cons cur rest)
  show ?case
  proof (cases "computeHash P cur = Inr (hash cur)")
    case False
    then show ?thesis
      by (auto simp: selfConsistent_def split: sum.splits)
  next
    case True
    show ?thesis
    proof (cases "find (\<lambda>l. fl_to l = hash cur) (forwardLinks prev)")
      case None
      then show ?thesis
        using True by (simp add: firstLinkVerifies_def)
    next
      case (Some link)
      then have ne: "forwardLinks prev \<noteq> []" by auto
      show ?thesis
        using True Some ne Cons.IH [of cur]
        by (simp add: firstLinkVerifies_def selfConsistent_def sourceKeys_def
            split: sum.splits option.splits)
    qed
  qed
qed

text \<open>
  C1, as the code has it. For every non-empty sequence of blocks whose first block is
  self-consistent, \<^verbatim>\<open>verifyChain\<close> without a pinned identity succeeds if and only if
  every block's stored hash equals its recomputed hash and, for every adjacent pair, the
  first forward link of the earlier block whose destination is the later block's hash
  exists and verifies against the public keys of the earlier block's own roster.
\<close>

theorem verifyChain_success_iff:
  assumes "blocks \<noteq> []" and "selfConsistent P (hd blocks)"
  shows "verifyChain P blocks None = Inr None \<longleftrightarrow>
           (\<forall>b \<in> set blocks. selfConsistent P b) \<and>
           (\<forall>(prev, cur) \<in> set (adjacent blocks). firstLinkVerifies P prev cur)"
proof -
  from assms(1) obtain b0 rest where blocks: "blocks = b0 # rest"
    by (cases blocks) auto
  with assms(2) have "selfConsistent P b0" by simp
  then show ?thesis
    by (simp add: blocks verifyChain_def adjacent_def verifyChain_loop_None_iff)
qed

theorem verifyChain_success_iff_witness:
  "goodChain \<noteq> [] \<and> selfConsistent exPrims (hd goodChain) \<and>
   verifyChain exPrims goodChain None = Inr None \<and>
   list_all (selfConsistent exPrims) goodChain \<and>
   list_all (\<lambda>(prev, cur). firstLinkVerifies exPrims prev cur) (adjacent goodChain)"
proof -
  have ne: "goodChain \<noteq> []"
    by (simp add: goodChain_def)
  have sc: "selfConsistent exPrims (hd goodChain)"
    by (simp add: selfConsistent_def ex_defs)
  have ok: "verifyChain exPrims goodChain None = Inr None"
    by (simp add: verifyChain_def ex_defs)
  show ?thesis
    using ne sc ok verifyChain_success_iff [OF ne sc] by (simp add: list_all_iff)
qed

text \<open>
  C1 as stated fails in both directions. A lone block whose stored hash is not its
  digest is accepted; and a chain of self-consistent blocks in which the second of two
  links to the next block is properly signed is rejected, because only the first link to
  that block is looked at.
\<close>

theorem verifyChain_iff_counterexample:
  "(verifyChain exPrims [badBlock] None = Inr None \<and> \<not> chainValid_spec exPrims [badBlock]) \<and>
   (verifyChain exPrims dupChain None = Inr (Some (InvalidLink (Failure ''signature not verified'')))
      \<and> chainValid_spec exPrims dupChain)"
  by (simp add: verifyChain_def chainValid_spec_def selfConsistent_def adjacent_def
      sourceKeys_def ex_defs)

lemma verifyChain_loop_append:
  "verifyChain_loop P b (xs @ ys) =
     (case verifyChain_loop P b xs of
        Inr None \<Rightarrow> verifyChain_loop P (last (b # xs)) ys
      | Inr (Some err) \<Rightarrow> Inr (Some err)
      | Inl ex \<Rightarrow> Inl ex)"
proof (induction xs arbitrary: b)
  case Nil
  show ?case by simp
next
  case (Cons x xs)
  show ?case
    using Cons.IH [of x]
    by (simp split: sum.splits option.splits)
qed

lemma verifyChain_accepted_prefix:
  assumes "verifyChain P (pre @ [prev]) firstID = Inr None"
  shows "verifyChain P (pre @ prev # ys) firstID = verifyChain_loop P prev ys"
proof -
  obtain b0 xs where split: "pre @ [prev] = b0 # xs"
    by (cases pre) auto
  then have last: "last (b0 # xs) = prev"
    by (metis last_snoc)
  have whole: "pre @ prev # ys = b0 # (xs @ ys)"
    using split by (metis append_Cons append_Nil append_assoc)
  have pin: "verifyChain P (b0 # xs) firstID = Inr None"
    using assms split by simp
  then have loop: "verifyChain_loop P b0 xs = Inr None"
    by (auto simp: verifyChain_def split: option.splits sum.splits if_splits)
  have "verifyChain P (b0 # (xs @ ys)) firstID = verifyChain_loop P b0 (xs @ ys)"
    using pin by (auto simp: verifyChain_def split: option.splits sum.splits if_splits)
  also have "\<dots> = verifyChain_loop P prev ys"
    using loop last by (simp add: verifyChain_loop_append del: last.simps)
  finally show ?thesis
    by (simp add: whole)
qed

text \<open>
  C2, as the code has it. At every position of a chain, whatever came before it (links
  with replacement rosters included), the matched link out of a block is verified
  against the public keys of that block's own roster, and the verdict of this one check
  decides: if it returns an error the chain is rejected as an invalid link with that
  error, if it throws the call throws, and if it verifies the link is accepted and the
  verification goes on from the next block. No running state of trusted keys exists.
\<close>

theorem verifyChain_keys_of_source_roster:
  assumes "verifyChain P (pre @ [prev]) firstID = Inr None"
    and "selfConsistent P cur"
    and "find (\<lambda>l. fl_to l = hash cur) (forwardLinks prev) = Some link"
    and "sourceKeys P prev = Inr keys"
  shows "verifyChain P (pre @ prev # cur # post) firstID =
           (case verify P link keys of
              Inr None \<Rightarrow> verifyChain P (cur # post) None
            | Inr (Some err) \<Rightarrow> Inr (Some (InvalidLink err))
            | Inl ex \<Rightarrow> Inl ex)"
proof -
  from assms(3) have ne: "forwardLinks prev \<noteq> []" by auto
  have "verifyChain P (pre @ prev # cur # post) firstID = verifyChain_loop P prev (cur # post)"
    by (rule verifyChain_accepted_prefix [OF assms(1)])
  also have "\<dots> = (case verify P link keys of
              Inr None \<Rightarrow> verifyChain_loop P cur post
            | Inr (Some err) \<Rightarrow> Inr (Some (InvalidLink err))
            | Inl ex \<Rightarrow> Inl ex)"
    using assms(2-4) ne
    by (simp add: selfConsistent_def sourceKeys_def split: sum.splits option.splits)
  also have "\<dots> = (case verify P link keys of
              Inr None \<Rightarrow> verifyChain P (cur # post) None
            | Inr (Some err) \<Rightarrow> Inr (Some (InvalidLink err))
            | Inl ex \<Rightarrow> Inl ex)"
    by (simp add: verifyChain_def split: sum.splits option.splits)
  finally show ?thesis .
qed

theorem verifyChain_keys_of_source_roster_witness:
  "verify exPrims (mkLink [0, 2] [0, 3] None [3]) [[3]] = Inr None \<and>
   verifyChain exPrims rotChain None = Inr None \<and>
   verify exPrims (mkLink [0, 2] [0, 3] None [2]) [[3]]
     = Inr (Some (Failure ''signature not verified'')) \<and>
   verifyChain exPrims rotChainB None
     = Inr (Some (InvalidLink (Failure ''signature not verified'')))"
proof -
  let ?b0 = "mkBlock [0, 1] [1] rosterA [mkLink [0, 1] [0, 2] (Some rosterB) [1]]"
  let ?b1 = "mkBlock [0, 2] [2] rosterC [mkLink [0, 2] [0, 3] None [3]]"
  let ?b1' = "mkBlock [0, 2] [2] rosterC [mkLink [0, 2] [0, 3] None [2]]"
  let ?b2 = "mkBlock [0, 3] [3] rosterC []"
  have pre: "verifyChain exPrims ([?b0] @ [?b1]) None = Inr None"
    and pre': "verifyChain exPrims ([?b0] @ [?b1']) None = Inr None"
    by (simp_all add: verifyChain_def ex_defs)
  have sc: "selfConsistent exPrims ?b2"
    by (simp add: selfConsistent_def ex_defs)
  have fnd: "find (\<lambda>l. fl_to l = hash ?b2) (forwardLinks ?b1)
               = Some (mkLink [0, 2] [0, 3] None [3])"
    and fnd': "find (\<lambda>l. fl_to l = hash ?b2) (forwardLinks ?b1')
               = Some (mkLink [0, 2] [0, 3] None [2])"
    by (simp_all add: ex_defs)
  have keys: "sourceKeys exPrims ?b1 = Inr [[3]]"
    and keys': "sourceKeys exPrims ?b1' = Inr [[3]]"
    by (simp_all add: sourceKeys_def ex_defs)
  have v: "verify exPrims (mkLink [0, 2] [0, 3] None [3]) [[3]] = Inr None"
    and v': "verify exPrims (mkLink [0, 2] [0, 3] None [2]) [[3]]
               = Inr (Some (Failure ''signature not verified''))"
    by (simp_all add: ex_defs)
  have tail: "verifyChain exPrims [?b2] None = Inr None"
    by (simp add: verifyChain_def)
  have a: "verifyChain exPrims rotChain None = Inr None"
    using verifyChain_keys_of_source_roster [OF pre sc fnd keys, of "[]"] v tail
    by (simp add: rotChain_def)
  have b: "verifyChain exPrims rotChainB None
             = Inr (Some (InvalidLink (Failure ''signature not verified'')))"
    using verifyChain_keys_of_source_roster [OF pre' sc fnd' keys', of "[]"] v'
    by (simp add: rotChainB_def)
  show ?thesis
    using v v' a b by simp
qed

text \<open>
  C2 as stated fails. In \<open>rotChain\<close> the link out of the first block announces roster
  \<open>B\<close>, and the link out of the second block is signed by the second block's own roster
  \<open>C\<close> only. The method accepts the chain; the verifier with a running state of trusted
  keys rejects the second link.
\<close>

theorem verifyChain_trusted_keys_counterexample:
  "verifyChain exPrims rotChain None = Inr None \<and>
   verifyChain_spec exPrims rotChain None =
     Inr (Some (InvalidLink (Failure ''signature not verified'')))"
  by (simp add: verifyChain_def verifyChain_spec_def verifyChain_spec_from_def ex_defs)

text \<open>
  C8. Whenever a pinned identity is given and differs from the recomputed hash of the
  first block, \<^verbatim>\<open>verifyChain\<close> returns the error of the first identity, whatever
  the other blocks, their links and their stored hashes are.
\<close>

theorem verifyChain_pinned_mismatch:
  assumes "blocks \<noteq> []" and "computeHash P (hd blocks) = Inr h" and "fid \<noteq> h"
  shows "verifyChain P blocks (Some fid) = Inr (Some FirstIDMismatch)"
  using assms by (cases blocks) (auto simp: verifyChain_def)

theorem verifyChain_pinned_mismatch_witness:
  "goodChain \<noteq> [] \<and> computeHash exPrims (hd goodChain) = Inr [0, 1] \<and>
   verifyChain exPrims goodChain None = Inr None \<and>
   verifyChain exPrims goodChain (Some [0, 7]) = Inr (Some FirstIDMismatch)"
proof -
  have ne: "goodChain \<noteq> []"
    by (simp add: goodChain_def)
  have h: "computeHash exPrims (hd goodChain) = Inr [0, 1]"
    by (simp add: ex_defs)
  have neq: "[0, 7] \<noteq> [0, 1 :: 8 word]"
    by simp
  have ok: "verifyChain exPrims goodChain None = Inr None"
    by (simp add: verifyChain_def ex_defs)
  show ?thesis
    using ne h ok verifyChain_pinned_mismatch [OF ne h neq] by blast
qed

text \<open>
  C10. A sequence of one block, without a pinned identity, is accepted whatever the
  block: the loop over the pairs has nothing to do, and the block's stored hash, links
  and signatures are not read.
\<close>

theorem verifyChain_single_block:
  "verifyChain P [b] None = Inr None"
  by (simp add: verifyChain_def)

theorem verifyChain_single_block_witness:
  "computeHash exPrims badBlock = Inr [0, 1] \<and> hash badBlock = [9, 9] \<and>
   verifyChain exPrims [badBlock] None = Inr None"
proof -
  have "computeHash exPrims badBlock = Inr [0, 1]" "hash badBlock = [9, 9]"
    by (simp_all add: ex_defs)
  then show ?thesis
    using verifyChain_single_block [of exPrims badBlock] by blast
qed

section \<open>The client: proofs\<close>

text \<open>
  C9. Both single-block fetches ask the first connection and compare the recomputed
  hash of the block received with its stored hash: they return the reply when the two
  are equal and fail with the hash error otherwise (\<^verbatim>\<open>computeHash\<close> returning a hash
  \<open>h\<close>). Nothing else of the reply is read.
\<close>

theorem getSkipBlock_self_consistency:
  "(conn rpc = c # cs \<longrightarrow> send n c \<lparr>block_id = bid\<rparr> = (Inr block, n') \<longrightarrow>
      computeHash P block = Inr h \<longrightarrow>
      getSkipBlock P send n rpc bid =
        (if selfConsistent P block then Inr block else Inl HashDoesNotMatch, n')) \<and>
   (conn rpc = c # cs \<longrightarrow> sendi n c \<lparr>req_genesis = g, req_index = i\<rparr> = (Inr reply, n') \<longrightarrow>
      computeHash P (skipblock reply) = Inr h' \<longrightarrow>
      getSkipBlockByIndex P sendi n rpc g i =
        (if selfConsistent P (skipblock reply) then Inr reply else Inl HashDoesNotMatch, n'))"
  by (auto simp: getSkipBlock_def getSkipBlockByIndex_def selfConsistent_def)

theorem getSkipBlock_self_consistency_witness:
  "getSkipBlock exPrims (sendBlock tipB) () (newSkipchainRPC exPrims rosterABCD) [0, 2]
     = (Inr tipB, ()) \<and>
   getSkipBlock exPrims (sendBlock badBlock) () (newSkipchainRPC exPrims rosterABCD) [0, 1]
     = (Inl HashDoesNotMatch, ()) \<and>
   getSkipBlockByIndex exPrims (sendBlockByIndex tipB) () (newSkipchainRPC exPrims rosterABCD)
       [0, 1] 1
     = (Inr \<lparr>skipblock = tipB, links = []\<rparr>, ()) \<and>
   getSkipBlockByIndex exPrims (sendBlockByIndex badBlock) ()
       (newSkipchainRPC exPrims rosterABCD) [0, 1] 0
     = (Inl HashDoesNotMatch, ())"
proof -
  let ?rpc = "newSkipchainRPC exPrims rosterABCD"
  let ?c = "\<lparr>url = ''A'', service = serviceName\<rparr>"
  let ?cs = "[\<lparr>url = ''B'', service = serviceName\<rparr>, \<lparr>url = ''C'', service = serviceName\<rparr>,
              \<lparr>url = ''D'', service = serviceName\<rparr>]"
  have conn: "conn ?rpc = ?c # ?cs"
    by (simp add: newSkipchainRPC_def exPrims_def rosterABCD_def rosterOf_def)
  have good: "selfConsistent exPrims tipB"
    by (simp add: selfConsistent_def tipB_def ex_defs)
  have bad: "\<not> selfConsistent exPrims badBlock"
    by (simp add: selfConsistent_def ex_defs)
  have h1: "computeHash exPrims tipB = Inr [0, 2]"
    and h2: "computeHash exPrims badBlock = Inr [0, 1]"
    by (simp_all add: tipB_def ex_defs)
  have s1: "sendBlock tipB () ?c \<lparr>block_id = [0, 2]\<rparr> = (Inr tipB, ())"
    and s2: "sendBlock badBlock () ?c \<lparr>block_id = [0, 1]\<rparr> = (Inr badBlock, ())"
    and s3: "sendBlockByIndex tipB () ?c \<lparr>req_genesis = [0, 1], req_index = 1\<rparr>
               = (Inr \<lparr>skipblock = tipB, links = []\<rparr>, ())"
    and s4: "sendBlockByIndex badBlock () ?c \<lparr>req_genesis = [0, 1], req_index = 0\<rparr>
               = (Inr \<lparr>skipblock = badBlock, links = []\<rparr>, ())"
    by (simp_all add: sendBlock_def sendBlockByIndex_def)
  from getSkipBlock_self_consistency
         [of ?rpc ?c ?cs "sendBlock tipB" "()" "[0, 2]" tipB "()" exPrims "[0, 2]"
            "sendBlockByIndex tipB" "[0, 1]" 1 "\<lparr>skipblock = tipB, links = []\<rparr>" "[0, 2]"]
       conn s1 s3 good h1
  have a: "getSkipBlock exPrims (sendBlock tipB) () ?rpc [0, 2] = (Inr tipB, ())"
    and b: "getSkipBlockByIndex exPrims (sendBlockByIndex tipB) () ?rpc [0, 1] 1
              = (Inr \<lparr>skipblock = tipB, links = []\<rparr>, ())"
    by simp_all
  from getSkipBlock_self_consistency
         [of ?rpc ?c ?cs "sendBlock badBlock" "()" "[0, 1]" badBlock "()" exPrims "[0, 1]"
            "sendBlockByIndex badBlock" "[0, 1]" 0 "\<lparr>skipblock = badBlock, links = []\<rparr>"
            "[0, 1]"]
       conn s2 s4 bad h2
  have c: "getSkipBlock exPrims (sendBlock badBlock) () ?rpc [0, 1] = (Inl HashDoesNotMatch, ())"
    and d: "getSkipBlockByIndex exPrims (sendBlockByIndex badBlock) () ?rpc [0, 1] 0
              = (Inl HashDoesNotMatch, ())"
    by simp_all
  show ?thesis
    using a b c d by simp
qed

lemma for_Cons_failure:
  assumes "memberFailure P send (net w) c lid = Some (line, n')"
  shows "getLatestBlock_for P send w (c # cs) lid =
           getLatestBlock_for P send \<lparr>net = n', log = log w @ [line]\<rparr> cs lid"
  using assms
  by (auto simp: memberFailure_def split: prod.splits sum.splits option.splits)

lemma for_Cons_verified:
  assumes "send (net w) c \<lparr>latestID = lid\<rparr> = (Inr reply, n')"
    and "verifyChain P (update reply) (Some lid) = Inr None"
  shows "getLatestBlock_for P send w (c # rest) lid =
           (if forwardLinks (last (update reply)) = []
            then Return (last (update reply)) \<lparr>net = n', log = log w\<rparr>
            else Recurse (last (update reply)) \<lparr>net = n', log = log w\<rparr>)"
  using assms by (simp add: Let_def)

lemma for_allFail_append:
  assumes "allFail P send w fs lid = Some w1"
  shows "getLatestBlock_for P send w (fs @ rest) lid = getLatestBlock_for P send w1 rest lid"
  using assms
proof (induction fs arbitrary: w)
  case Nil
  then show ?case by simp
next
  case (Cons c fs)
  from Cons.prems obtain line n' where
    mf: "memberFailure P send (net w) c lid = Some (line, n')" and
    af: "allFail P send \<lparr>net = n', log = log w @ [line]\<rparr> fs lid = Some w1"
    by (auto split: option.splits)
  have "getLatestBlock_for P send w ((c # fs) @ rest) lid =
          getLatestBlock_for P send \<lparr>net = n', log = log w @ [line]\<rparr> (fs @ rest) lid"
    using for_Cons_failure [OF mf] by simp
  also have "\<dots> = getLatestBlock_for P send w1 rest lid"
    by (rule Cons.IH [OF af])
  finally show ?case .
qed


lemma getLatestBlock_reenters_forever:
  assumes send: "send n c \<lparr>latestID = lid\<rparr> = (Inr reply, n)"
    and ok: "verifyChain P (update reply) (Some lid) = Inr None"
    and fl: "forwardLinks (last (update reply)) \<noteq> []"
    and same_root: "hash (last (update reply)) = lid"
    and same_head: "conn (newSkipchainRPC P (roster (last (update reply)))) = c # cs'"
    and start: "net w = n" "conn rpc = c # cs"
  shows "getLatestBlock P send w rpc lid = None"
proof (rule ccontr)
  assume "getLatestBlock P send w rpc lid \<noteq> None"
  then obtain y where y: "getLatestBlock P send w rpc lid = Some y"
    by auto
  let ?S = "\<lambda>x :: (((prims \<times> ('a, GetUpdateChain, GetUpdateChainReply) send) \<times> 'a world)
                     \<times> SkipchainRPC) \<times> Buffer.
      case x of ((((P', send'), w'), rpc'), lid') \<Rightarrow>
        P' = P \<and> send' = send \<and> lid' = lid \<and> net w' = n \<and> (\<exists>cs. conn rpc' = c # cs)"
  have "\<not> ?S ((((P, send), w), rpc), lid)"
  proof (rule getLatestBlock.raw_induct [where Pa = "\<lambda>x _. \<not> ?S x", OF _ y])
    fix f and P' :: prims and send' :: "('a, GetUpdateChain, GetUpdateChainReply) send"
      and w' :: "'a world" and rpc' :: SkipchainRPC and lid' :: Buffer
      and y' :: "(error + SkipBlock) \<times> 'a world"
    assume IH: "\<And>P send w rpc lid y. f P send w rpc lid = Some y \<Longrightarrow>
                  \<not> ?S ((((P, send), w), rpc), lid)"
      and body: "(case getLatestBlock_for P' send' w' (conn rpc') lid' of
          Return b w'' \<Rightarrow> Some (Inr b, w'')
        | Recurse b w'' \<Rightarrow> f P' send' w'' (newSkipchainRPC P' (roster b)) (hash b)
        | Thrown ex w'' \<Rightarrow> Some (Inl ex, w'')
        | Exhausted w'' \<Rightarrow> Some (Inl NoConodeHasLatest, w'')) = Some y'"
    show "\<not> ?S ((((P', send'), w'), rpc'), lid')"
    proof
      assume S: "?S ((((P', send'), w'), rpc'), lid')"
      then obtain cs'' where eqs: "P' = P" "send' = send" "lid' = lid" "net w' = n"
        and conn: "conn rpc' = c # cs''"
        by auto
      have "getLatestBlock_for P send w' (c # cs'') lid =
              Recurse (last (update reply)) \<lparr>net = n, log = log w'\<rparr>"
        using for_Cons_verified [of send w' c lid reply n P cs''] send ok fl eqs(4)
        by simp
      with body eqs conn
      have "f P send \<lparr>net = n, log = log w'\<rparr>
              (newSkipchainRPC P (roster (last (update reply)))) (hash (last (update reply)))
            = Some y'"
        by simp
      from IH [OF this] show False
        using same_root same_head by simp
    qed
  qed
  with start show False by simp
qed

text \<open>
  C5, as the code has it. When the members before \<open>c\<close> all fail and \<open>c\<close> returns a chain
  that verifies from \<open>lid\<close> and whose last block \<open>b\<close> has one or more forward links, the
  call returns what the call of a new client for the own roster of \<open>b\<close> returns on the
  stored hash of \<open>b\<close>. The forward links of \<open>b\<close> are counted and not read: neither a
  replacement roster nor a destination of theirs takes part.
\<close>

theorem getLatestBlock_restarts_on_last_block:
  assumes "conn rpc = fs @ c # rest"
    and "allFail P send w fs lid = Some w1"
    and "send (net w1) c \<lparr>latestID = lid\<rparr> = (Inr reply, n')"
    and "verifyChain P (update reply) (Some lid) = Inr None"
    and "forwardLinks (last (update reply)) \<noteq> []"
  shows "getLatestBlock P send w rpc lid =
           getLatestBlock P send \<lparr>net = n', log = log w1\<rparr>
             (newSkipchainRPC P (roster (last (update reply)))) (hash (last (update reply)))"
proof -
  have "getLatestBlock_for P send w (conn rpc) lid =
          Recurse (last (update reply)) \<lparr>net = n', log = log w1\<rparr>"
    using for_allFail_append [OF assms(2), of "c # rest"]
      for_Cons_verified [of send w1 c lid reply n' P rest] assms
    by simp
  then show ?thesis
    by (subst getLatestBlock.simps) simp
qed

theorem getLatestBlock_restarts_on_last_block_witness:
  "getLatestBlock exPrims sendTraced t0 (newSkipchainRPC exPrims rosterA) [0, 1] =
     getLatestBlock exPrims sendTraced \<lparr>net = [(''A'', [0, 1])], log = []\<rparr>
       (newSkipchainRPC exPrims rosterB) [0, 2]"
proof -
  let ?c = "\<lparr>url = ''A'', service = serviceName\<rparr>"
  have conn: "conn (newSkipchainRPC exPrims rosterA) = [] @ ?c # []"
    by (simp add: newSkipchainRPC_def exPrims_def rosterA_def rosterOf_def)
  have fail: "allFail exPrims sendTraced t0 [] [0, 1] = Some t0"
    by simp
  have snd: "sendTraced (net t0) ?c \<lparr>latestID = [0, 1]\<rparr>
               = (Inr \<lparr>update = movedChain\<rparr>, [(''A'', [0, 1])])"
    by (simp add: sendTraced_def t0_def)
  have ok: "verifyChain exPrims (update \<lparr>update = movedChain\<rparr>) (Some [0, 1]) = Inr None"
    by (simp add: verifyChain_def ex_defs net_defs)
  have more: "forwardLinks (last (update \<lparr>update = movedChain\<rparr>)) \<noteq> []"
    by (simp add: ex_defs net_defs)
  have last: "roster (last (update \<lparr>update = movedChain\<rparr>)) = rosterB"
    "hash (last (update \<lparr>update = movedChain\<rparr>)) = [0, 2]"
    by (simp_all add: ex_defs net_defs)
  show ?thesis
    using getLatestBlock_restarts_on_last_block
      [of "newSkipchainRPC exPrims rosterA" "[]" ?c "[]" exPrims sendTraced t0 "[0, 1]" t0
         "\<lparr>update = movedChain\<rparr>" "[(''A'', [0, 1])]"]
      conn fail snd ok more last
    by (simp add: t0_def)
qed

text \<open>
  C5 as stated fails. The last block of \<open>movedChain\<close> has roster \<open>B\<close> and stored hash
  \<open>[0, 2]\<close>, and its only forward link announces roster \<open>C\<close> and leads to \<open>[0, 3]\<close>. The
  second request goes to \<open>B\<close> for \<open>[0, 2]\<close>, and the call returns the block \<open>B\<close> holds.
\<close>

theorem getLatestBlock_restart_counterexample:
  "map newRoster (forwardLinks (last movedChain)) = [Some rosterC] \<and>
   map fl_to (forwardLinks (last movedChain)) = [[0, 3]] \<and>
   roster (last movedChain) = rosterB \<and> hash (last movedChain) = [0, 2] \<and>
   getLatestBlock exPrims sendTraced t0 (newSkipchainRPC exPrims rosterA) [0, 1] =
     Some (Inr tipB, \<lparr>net = [(''A'', [0, 1]), (''B'', [0, 2])], log = []\<rparr>)"
proof -
  have run: "getLatestBlock exPrims sendTraced t0
      (newSkipchainRPC exPrims rosterA) [0, 1] =
     Some (Inr tipB, \<lparr>net = [(''A'', [0, 1]), (''B'', [0, 2])], log = []\<rparr>)"
    apply (subst getLatestBlock.simps)
    apply (simp add: verifyChain_def ex_defs net_defs)
    apply (subst getLatestBlock.simps)
    apply (simp add: verifyChain_def ex_defs net_defs)
    done
  show ?thesis
    using run by (simp add: ex_defs net_defs)
qed

text \<open>
  C4 fails on the code, which keeps no set of the pairs it has tried and has no error
  for a cycle. \<open>A\<close>, the only member of its roster, answers each request for \<open>[0, 1]\<close>
  with that block alone, which has a forward link. The call re-enters the pair of roster
  \<open>A\<close> and root \<open>[0, 1]\<close> again and again: its promise neither resolves with a block nor
  rejects with an error.
\<close>

theorem getLatestBlock_cycle_never_returns:
  "getLatestBlock exPrims sendLoop w0 (newSkipchainRPC exPrims rosterA) [0, 1] = None"
proof -
  let ?c = "\<lparr>url = ''A'', service = serviceName\<rparr>"
  have snd: "sendLoop () ?c \<lparr>latestID = [0, 1]\<rparr> = (Inr \<lparr>update = [loopBlock]\<rparr>, ())"
    by (simp add: sendLoop_def)
  have ok: "verifyChain exPrims (update \<lparr>update = [loopBlock]\<rparr>) (Some [0, 1]) = Inr None"
    by (simp add: verifyChain_def ex_defs net_defs)
  have more: "forwardLinks (last (update \<lparr>update = [loopBlock]\<rparr>)) \<noteq> []"
    by (simp add: ex_defs net_defs)
  have root: "hash (last (update \<lparr>update = [loopBlock]\<rparr>)) = [0, 1]"
    by (simp add: ex_defs net_defs)
  have again: "conn (newSkipchainRPC exPrims (roster (last (update \<lparr>update = [loopBlock]\<rparr>))))
                 = ?c # []"
    by (simp add: ex_defs net_defs)
  have start: "net w0 = ()" "conn (newSkipchainRPC exPrims rosterA) = ?c # []"
    by (simp_all add: ex_defs net_defs)
  show ?thesis
    using getLatestBlock_reenters_forever
      [of sendLoop "()" ?c "[0, 1]" "\<lparr>update = [loopBlock]\<rparr>" exPrims "[]" w0
         "newSkipchainRPC exPrims rosterA" "[]"]
      snd ok more root again start
    by blast
qed

text \<open>
  C3 fails on the first block of a chain, whose stored hash the verifier never compares
  with its recomputed hash. \<open>badBlock\<close> has digest \<open>[0, 1]\<close> and stored hash \<open>[9, 9]\<close>:
  the chain made of it alone verifies from \<open>[0, 1]\<close>, and \<^verbatim>\<open>getLatestBlock\<close> returns it
  as the latest block.
\<close>

theorem corrupt_first_block_accepted:
  "computeHash exPrims badBlock = Inr [0, 1] \<and> hash badBlock = [9, 9] \<and>
   verifyChain exPrims [badBlock] (Some [0, 1]) = Inr None \<and>
   getLatestBlock exPrims sendBad w0 (newSkipchainRPC exPrims rosterA) [0, 1] =
     Some (Inr badBlock, w0)"
proof -
  have run: "getLatestBlock exPrims sendBad w0 (newSkipchainRPC exPrims rosterA) [0, 1] =
     Some (Inr badBlock, w0)"
    apply (subst getLatestBlock.simps)
    apply (simp add: verifyChain_def ex_defs net_defs)
    done
  show ?thesis
    using run by (simp add: verifyChain_def ex_defs)
qed

text \<open>
  C6 fails on the code when the verification of a member's chain throws: the \<^verbatim>\<open>try\<close>
  encloses the request alone. \<open>B\<close>, the first member of the roster, returns a chain
  whose link has an empty signature, on which the signature check throws; \<open>C\<close>, the
  second member, would return a chain that verifies. The call rejects with the
  exception: nothing is logged and \<open>C\<close> is never asked.
\<close>

theorem verification_exception_aborts_call:
  "sendABCD [] \<lparr>url = ''B'', service = serviceName\<rparr> \<lparr>latestID = [0, 1]\<rparr> =
     (Inr \<lparr>update = throwChain\<rparr>, [(''B'', [0, 1])]) \<and>
   verifyChain exPrims throwChain (Some [0, 1]) = Inl (Failure ''malformed signature'') \<and>
   sendABCD [(''B'', [0, 1])] \<lparr>url = ''C'', service = serviceName\<rparr> \<lparr>latestID = [0, 1]\<rparr> =
     (Inr \<lparr>update = goodChain\<rparr>, [(''B'', [0, 1]), (''C'', [0, 1])]) \<and>
   verifyChain exPrims goodChain (Some [0, 1]) = Inr None \<and>
   getLatestBlock exPrims sendABCD t0 (newSkipchainRPC exPrims rosterBC) [0, 1] =
     Some (Inl (Failure ''malformed signature''), \<lparr>net = [(''B'', [0, 1])], log = []\<rparr>)"
proof -
  have run: "getLatestBlock exPrims sendABCD t0 (newSkipchainRPC exPrims rosterBC) [0, 1] =
     Some (Inl (Failure ''malformed signature''), \<lparr>net = [(''B'', [0, 1])], log = []\<rparr>)"
    apply (subst getLatestBlock.simps)
    apply (simp add: verifyChain_def ex_defs net_defs)
    done
  show ?thesis
    using run by (simp add: verifyChain_def sendABCD_def ex_defs)
qed

text \<open>
  C7 fails on the code for the same reason. Of the members \<open>A\<close>, \<open>B\<close>, \<open>C\<close>, \<open>D\<close>, \<open>A\<close> is
  unreachable, the chain of \<open>B\<close> makes the signature check throw, and \<open>C\<close> is the first
  member whose chain verifies; the last block of that chain has no forward link. The
  call does not return that block: it rejects with the exception after one logged
  failure, and \<open>C\<close> is never asked.
\<close>

theorem verification_exception_hides_verifying_member:
  "verifyChain exPrims goodChain (Some [0, 1]) = Inr None \<and>
   forwardLinks (last goodChain) = [] \<and>
   sendABCD [] \<lparr>url = ''A'', service = serviceName\<rparr> \<lparr>latestID = [0, 1]\<rparr> =
     (Inl unreachable, [(''A'', [0, 1])]) \<and>
   sendABCD [(''A'', [0, 1])] \<lparr>url = ''B'', service = serviceName\<rparr> \<lparr>latestID = [0, 1]\<rparr> =
     (Inr \<lparr>update = throwChain\<rparr>, [(''A'', [0, 1]), (''B'', [0, 1])]) \<and>
   verifyChain exPrims throwChain (Some [0, 1]) = Inl (Failure ''malformed signature'') \<and>
   sendABCD [(''A'', [0, 1]), (''B'', [0, 1])] \<lparr>url = ''C'', service = serviceName\<rparr>
       \<lparr>latestID = [0, 1]\<rparr> =
     (Inr \<lparr>update = goodChain\<rparr>, [(''A'', [0, 1]), (''B'', [0, 1]), (''C'', [0, 1])]) \<and>
   getLatestBlock exPrims sendABCD t0 (newSkipchainRPC exPrims rosterABCD) [0, 1] =
     Some (Inl (Failure ''malformed signature''),
           \<lparr>net = [(''A'', [0, 1]), (''B'', [0, 1])], log = [ErrorFrom ''A'' unreachable]\<rparr>)"
proof -
  have run: "getLatestBlock exPrims sendABCD t0 (newSkipchainRPC exPrims rosterABCD) [0, 1] =
     Some (Inl (Failure ''malformed signature''),
           \<lparr>net = [(''A'', [0, 1]), (''B'', [0, 1])], log = [ErrorFrom ''A'' unreachable]\<rparr>)"
    apply (subst getLatestBlock.simps)
    apply (simp add: verifyChain_def ex_defs net_defs)
    done
  show ?thesis
    using run by (simp add: verifyChain_def sendABCD_def ex_defs)
qed

end
